theory Spec2Isabelle
  imports Main "HOL-Library.Sublist"
begin

section \<open>JavaScript values\<close>

text \<open>
  The values the operations receive and forward. A string is the list of the bytes of its
  UTF-8 encoding. \<open>JNum i\<close> is a finite number with the integral value \<open>i\<close>, of magnitude
  at most \<open>2^53 - 1\<close>, and \<open>JNum 0\<close> is the positive zero; the negative zero and the
  three non-finite numbers have constructors of their own. An object is the list of
  its own enumerable properties in enumeration order. Numbers with a fractional part,
  functions, symbols, big integers and cyclic objects are outside the model.
\<close>

datatype jsval =
    JUndefined
  | JNull
  | JBool bool
  | JNum int
  | JNegZero
  | JNaN
  | JInfinity
  | JNegInfinity
  | JStr string
  | JArr "jsval list"
  | JObj "(string \<times> jsval) list"

text \<open>
  ToBoolean: the falsy values are undefined, null, false, the two zeros, NaN and the empty
  string.
\<close>

fun truthy :: "jsval \<Rightarrow> bool" where
  "truthy JUndefined = False"
| "truthy JNull = False"
| "truthy (JBool b) = b"
| "truthy (JNum i) = (i \<noteq> 0)"
| "truthy JNegZero = False"
| "truthy JNaN = False"
| "truthy JInfinity = True"
| "truthy JNegInfinity = True"
| "truthy (JStr s) = (s \<noteq> [])"
| "truthy (JArr vs) = True"
| "truthy (JObj ps) = True"

text \<open>The operator \<open>a || b\<close>.\<close>

definition js_or :: "jsval \<Rightarrow> jsval \<Rightarrow> jsval" where
  "js_or a b = (if truthy a then a else b)"

text \<open>
  The i-th actual argument of a call: a parameter with no argument is undefined.
\<close>

definition arg :: "jsval list \<Rightarrow> nat \<Rightarrow> jsval" where
  "arg args i = (if i < length args then args ! i else JUndefined)"

subsection \<open>Number to string\<close>

definition digit_char :: "nat \<Rightarrow> char" where
  "digit_char d = ''0123456789'' ! d"

fun digits_of :: "nat \<Rightarrow> string" where
  "digits_of n = (if n < 10 then [digit_char n] else digits_of (n div 10) @ [digit_char (n mod 10)])"

declare digits_of.simps [simp del]

text \<open>\<open>'' + v\<close> for an integral number below \<open>10^21\<close> in magnitude: its decimal digits.\<close>

definition number_to_string :: "int \<Rightarrow> string" where
  "number_to_string i = (if i < 0 then CHR ''-'' # digits_of (nat (- i)) else digits_of (nat i))"

section \<open>The querystring module\<close>

text \<open>
  \<open>querystring.stringify\<close> of the platform, with the default separators and the default
  escape function. \<open>noEscape\<close> is the table of the ASCII characters that are kept:
  letters, digits and \<open>! ' ( ) * - . _ ~\<close>; every other byte becomes \<open>%XX\<close>.
\<close>

definition noEscape :: "char \<Rightarrow> bool" where
  "noEscape c =
     (let n = (of_char c :: nat) in
        n = 33 \<or> (39 \<le> n \<and> n \<le> 42) \<or> n = 45 \<or> n = 46 \<or> (48 \<le> n \<and> n \<le> 57)
        \<or> (65 \<le> n \<and> n \<le> 90) \<or> n = 95 \<or> (97 \<le> n \<and> n \<le> 122) \<or> n = 126)"

definition hex_digit :: "nat \<Rightarrow> char" where
  "hex_digit d = ''0123456789ABCDEF'' ! d"

definition hexTable :: "char \<Rightarrow> string" where
  "hexTable c = [CHR ''%'', hex_digit ((of_char c :: nat) div 16), hex_digit ((of_char c :: nat) mod 16)]"

fun qsEscape :: "string \<Rightarrow> string" where
  "qsEscape [] = []"
| "qsEscape (c # cs) = (if noEscape c then [c] else hexTable c) @ qsEscape cs"

text \<open>
  \<open>encodeStringified\<close>: a string is escaped, a finite number and a boolean are printed
  (the negative zero prints as \<open>0\<close>), everything else (undefined, null, NaN, the
  infinities, objects) gives the empty string.
\<close>

fun encodeStringified :: "jsval \<Rightarrow> string" where
  "encodeStringified (JStr s) = (if s \<noteq> [] then qsEscape s else [])"
| "encodeStringified (JNum i) = number_to_string i"
| "encodeStringified JNegZero = ''0''"
| "encodeStringified (JBool b) = (if b then ''true'' else ''false'')"
| "encodeStringified v = []"

text \<open>The inner loop over the elements of an array value; \<open>j\<close> is the loop index.\<close>

fun stringify_array :: "string \<Rightarrow> string \<Rightarrow> nat \<Rightarrow> jsval list \<Rightarrow> string" where
  "stringify_array ks fields j [] = fields"
| "stringify_array ks fields j (x # xs) =
     stringify_array ks ((if j \<noteq> 0 then fields @ ''&'' else fields) @ ks @ encodeStringified x) (Suc j) xs"

text \<open>The outer loop over the keys of the object; \<open>fields\<close> is the string built so far.\<close>

fun stringify_fields :: "string \<Rightarrow> (string \<times> jsval) list \<Rightarrow> string" where
  "stringify_fields fields [] = fields"
| "stringify_fields fields ((k, v) # rest) =
     (let ks = encodeStringified (JStr k) @ ''='' in
        case v of
          JArr vs \<Rightarrow>
            if vs = [] then stringify_fields fields rest
            else stringify_fields
                   (stringify_array ks (if fields \<noteq> [] then fields @ ''&'' else fields) 0 vs) rest
        | _ \<Rightarrow>
            stringify_fields
              ((if fields \<noteq> [] then fields @ ''&'' else fields) @ ks @ encodeStringified v) rest)"

definition querystring_stringify :: "(string \<times> jsval) list \<Rightarrow> string" where
  "querystring_stringify obj = stringify_fields [] obj"

section \<open>JSON documents\<close>

text \<open>
  A JSON text is represented by its document tree; a member list keeps the order of the
  text.
\<close>

datatype json =
    Jnull
  | Jbool bool
  | Jnumber int
  | Jstring string
  | Jarray "json list"
  | Jobject "(string \<times> json) list"

text \<open>
  \<open>JSON.stringify\<close> of the platform, up to the document tree: the result is \<open>None\<close> where
  \<open>JSON.stringify\<close> returns undefined. A property whose value is undefined is left out;
  an undefined array element and a non-finite number become null, and the negative zero
  is written as \<open>0\<close>.
\<close>

fun JSON_stringify :: "jsval \<Rightarrow> json option"
  and serialize_elements :: "jsval list \<Rightarrow> json list"
  and serialize_properties :: "(string \<times> jsval) list \<Rightarrow> (string \<times> json) list" where
  "JSON_stringify JUndefined = None"
| "JSON_stringify JNull = Some Jnull"
| "JSON_stringify (JBool b) = Some (Jbool b)"
| "JSON_stringify (JNum i) = Some (Jnumber i)"
| "JSON_stringify JNegZero = Some (Jnumber 0)"
| "JSON_stringify JNaN = Some Jnull"
| "JSON_stringify JInfinity = Some Jnull"
| "JSON_stringify JNegInfinity = Some Jnull"
| "JSON_stringify (JStr s) = Some (Jstring s)"
| "JSON_stringify (JArr vs) = Some (Jarray (serialize_elements vs))"
| "JSON_stringify (JObj ps) = Some (Jobject (serialize_properties ps))"
| "serialize_elements [] = []"
| "serialize_elements (v # vs) =
     (case JSON_stringify v of None \<Rightarrow> Jnull | Some j \<Rightarrow> j) # serialize_elements vs"
| "serialize_properties [] = []"
| "serialize_properties ((k, v) # ps) =
     (case JSON_stringify v of
        None \<Rightarrow> serialize_properties ps
      | Some j \<Rightarrow> (k, j) # serialize_properties ps)"



section \<open>The host object and the request descriptor\<close>

text \<open>
  The second argument of the transport. The operations of the source write object
  literals with the single property \<open>data\<close>, the query parameters; \<open>method\<close> and \<open>body\<close>
  are the properties that \<open>postJSON\<close> sets. A property that is not set is \<open>None\<close>.
\<close>

datatype http_method = POST

record options =
  "method" :: "http_method option"
  data :: "jsval option"
  body :: "json option"

text \<open>
  Modelled from the spec: the helper \<open>postJSON\<close> of \<open>./util\<close>, which the operations
  import, is not among the sources. The spec says of it that a structured body is
  serialized as JSON and attached as the request payload, and that the helper wraps
  structured payloads for POST semantics.
\<close>

definition postJSON :: "jsval \<Rightarrow> options" where
  "postJSON payload = \<lparr>method = Some POST, data = None, body = JSON_stringify payload\<rparr>"


text \<open>What the accessor resolves to: an object with the property \<open>accessToken\<close>.\<close>

record token =
  accessToken :: string

text \<open>
  The object the operations are methods of (\<open>this\<close>): the configuration and the two
  injected asynchronous collaborators. A collaborator runs on the state \<open>'w\<close> of the
  outside world and settles: \<open>Inl e\<close> is a rejection with the error \<open>e\<close>, \<open>Inr v\<close> a
  fulfilment with \<open>v\<close>. The transport takes the URL and the options; \<open>None\<close> is a call
  with the URL alone.
\<close>

record ('w, 'e, 'r) host =
  prefix :: string
  corpid :: jsval
  agentid :: jsval
  ensureAccessToken :: "'w \<Rightarrow> ('e + token) \<times> 'w"
  request :: "string \<Rightarrow> options option \<Rightarrow> 'w \<Rightarrow> ('e + 'r) \<times> 'w"

text \<open>
  What a call of an asynchronous operation amounts to: how its promise settles, the
  invocations of the transport it made, in order, and the state of the world afterwards.
\<close>

record ('w, 'e, 'r) outcome =
  settled :: "'e + 'r"
  requests :: "(string \<times> options option) list"
  world :: 'w

text \<open>\<open>return this.request(url, opts)\<close>: one invocation, whose settlement is the operation's.\<close>

definition return_request ::
  "('w, 'e, 'r) host \<Rightarrow> string \<Rightarrow> options option \<Rightarrow> 'w \<Rightarrow> ('w, 'e, 'r) outcome" where
  "return_request h url opts w =
     (case request h url opts w of
        (r, w') \<Rightarrow> \<lparr>settled = r, requests = [(url, opts)], world = w'\<rparr>)"

text \<open>
  \<open>const { accessToken } = await this.ensureAccessToken()\<close> followed by the rest of the
  body: a rejection of the accessor is the rejection of the operation, and the rest does
  not run.
\<close>

definition await_accessToken ::
  "('w, 'e, 'r) host \<Rightarrow> (string \<Rightarrow> 'w \<Rightarrow> ('w, 'e, 'r) outcome) \<Rightarrow> 'w \<Rightarrow> ('w, 'e, 'r) outcome" where
  "await_accessToken h rest w =
     (case ensureAccessToken h w of
        (Inl e, w') \<Rightarrow> \<lparr>settled = Inl e, requests = [], world = w'\<rparr>
      | (Inr t, w') \<Rightarrow> rest (accessToken t) w')"

section \<open>The operations\<close>

definition getCallbackIp :: "('w, 'e, 'r) host \<Rightarrow> 'w \<Rightarrow> ('w, 'e, 'r) outcome" where
  "getCallbackIp h =
     await_accessToken h (\<lambda>accessToken.
       let url = prefix h @ ''getcallbackip?access_token='' @ accessToken
       in return_request h url None)"

definition createUser :: "('w, 'e, 'r) host \<Rightarrow> jsval \<Rightarrow> 'w \<Rightarrow> ('w, 'e, 'r) outcome" where
  "createUser h user =
     await_accessToken h (\<lambda>accessToken.
       let url = prefix h @ ''user/create?access_token='' @ accessToken
       in return_request h url (Some (postJSON user)))"

definition updateUser :: "('w, 'e, 'r) host \<Rightarrow> jsval \<Rightarrow> 'w \<Rightarrow> ('w, 'e, 'r) outcome" where
  "updateUser h user =
     await_accessToken h (\<lambda>accessToken.
       let url = prefix h @ ''user/update?access_token='' @ accessToken
       in return_request h url (Some (postJSON user)))"

text \<open>
  The source assigns two functions to \<open>exports.deleteUser\<close>. The first, for a single
  user, is \<open>deleteUser_single\<close> here and the second, for a list of users, is
  \<open>deleteUser_batch\<close>.
\<close>

definition deleteUser_single :: "('w, 'e, 'r) host \<Rightarrow> jsval \<Rightarrow> 'w \<Rightarrow> ('w, 'e, 'r) outcome" where
  "deleteUser_single h id' =
     await_accessToken h (\<lambda>accessToken.
       let url = prefix h @ ''user/delete?access_token='' @ accessToken;
           opts = \<lparr>method = None, data = Some (JObj [(''userid'', id')]), body = None\<rparr>
       in return_request h url (Some opts))"

definition deleteUser_batch :: "('w, 'e, 'r) host \<Rightarrow> jsval \<Rightarrow> 'w \<Rightarrow> ('w, 'e, 'r) outcome" where
  "deleteUser_batch h users =
     await_accessToken h (\<lambda>accessToken.
       let url = prefix h @ ''user/batchdelete?access_token='' @ accessToken;
           opts = JObj [(''useridlist'', users)]
       in return_request h url (Some (postJSON opts)))"

definition getUser :: "('w, 'e, 'r) host \<Rightarrow> jsval \<Rightarrow> 'w \<Rightarrow> ('w, 'e, 'r) outcome" where
  "getUser h id' =
     await_accessToken h (\<lambda>accessToken.
       let url = prefix h @ ''user/get?access_token='' @ accessToken;
           opts = \<lparr>method = None, data = Some (JObj [(''userid'', id')]), body = None\<rparr>
       in return_request h url (Some opts))"

definition getDepartmentUsers ::
  "('w, 'e, 'r) host \<Rightarrow> jsval \<Rightarrow> jsval \<Rightarrow> 'w \<Rightarrow> ('w, 'e, 'r) outcome" where
  "getDepartmentUsers h departmentId fetchChild =
     await_accessToken h (\<lambda>accessToken.
       let url = prefix h @ ''user/simplelist?access_token='' @ accessToken;
           opts = \<lparr>method = None,
                   data = Some (JObj [(''department_id'', departmentId), (''fetch_child'', fetchChild)]),
                   body = None\<rparr>
       in return_request h url (Some opts))"

definition getDepartmentUsersDetail ::
  "('w, 'e, 'r) host \<Rightarrow> jsval \<Rightarrow> jsval \<Rightarrow> 'w \<Rightarrow> ('w, 'e, 'r) outcome" where
  "getDepartmentUsersDetail h departmentId fetchChild =
     await_accessToken h (\<lambda>accessToken.
       let url = prefix h @ ''user/list?access_token='' @ accessToken;
           opts = \<lparr>method = None,
                   data = Some (JObj [(''department_id'', departmentId), (''fetch_child'', fetchChild)]),
                   body = None\<rparr>
       in return_request h url (Some opts))"

definition inviteUser ::
  "('w, 'e, 'r) host \<Rightarrow> jsval \<Rightarrow> jsval \<Rightarrow> jsval \<Rightarrow> 'w \<Rightarrow> ('w, 'e, 'r) outcome" where
  "inviteUser h user party tag =
     await_accessToken h (\<lambda>accessToken.
       let url = prefix h @ ''batch/invite?access_token='' @ accessToken;
           opts = JObj [(''user'', user), (''party'', party), (''tag'', tag)]
       in return_request h url (Some (postJSON opts)))"

definition getUserIdByCode :: "('w, 'e, 'r) host \<Rightarrow> jsval \<Rightarrow> 'w \<Rightarrow> ('w, 'e, 'r) outcome" where
  "getUserIdByCode h code =
     await_accessToken h (\<lambda>accessToken.
       let url = prefix h @ ''user/getuserinfo?access_token='' @ accessToken;
           opts = \<lparr>method = None,
                   data = Some (JObj [(''code'', code), (''agentid'', agentid h)]),
                   body = None\<rparr>
       in return_request h url (Some opts))"

text \<open>The one synchronous operation: it takes no state of the world and returns a string.\<close>

definition getAuthorizeURL :: "('w, 'e, 'r) host \<Rightarrow> jsval \<Rightarrow> jsval \<Rightarrow> jsval \<Rightarrow> string" where
  "getAuthorizeURL h redirect state scope =
     (let url = ''https://open.weixin.qq.com/connect/oauth2/authorize'';
          info = [(''appid'', corpid h),
                  (''redirect_uri'', redirect),
                  (''response_type'', JStr ''code''),
                  (''scope'', js_or scope (JStr ''snsapi_base'')),
                  (''state'', js_or state (JStr []))]
      in url @ ''?'' @ querystring_stringify info @ ''#wechat_redirect'')"

section \<open>The exports object\<close>

text \<open>
  An exported function is called with a list of arguments. The module assigns to the
  properties of \<open>exports\<close> one after the other; an assignment to a name that is already
  there replaces its value.
\<close>

datatype ('w, 'e, 'r) exported =
    AsyncFunction "('w, 'e, 'r) host \<Rightarrow> jsval list \<Rightarrow> 'w \<Rightarrow> ('w, 'e, 'r) outcome"
  | SyncFunction "('w, 'e, 'r) host \<Rightarrow> jsval list \<Rightarrow> string"

definition assignments :: "(string \<times> ('w, 'e, 'r) exported) list" where
  "assignments =
     [(''getCallbackIp'', AsyncFunction (\<lambda>h args. getCallbackIp h)),
      (''createUser'', AsyncFunction (\<lambda>h args. createUser h (arg args 0))),
      (''updateUser'', AsyncFunction (\<lambda>h args. updateUser h (arg args 0))),
      (''deleteUser'', AsyncFunction (\<lambda>h args. deleteUser_single h (arg args 0))),
      (''deleteUser'', AsyncFunction (\<lambda>h args. deleteUser_batch h (arg args 0))),
      (''getUser'', AsyncFunction (\<lambda>h args. getUser h (arg args 0))),
      (''getDepartmentUsers'',
         AsyncFunction (\<lambda>h args. getDepartmentUsers h (arg args 0) (arg args 1))),
      (''getDepartmentUsersDetail'',
         AsyncFunction (\<lambda>h args. getDepartmentUsersDetail h (arg args 0) (arg args 1))),
      (''inviteUser'',
         AsyncFunction (\<lambda>h args. inviteUser h (arg args 0) (arg args 1) (arg args 2))),
      (''getUserIdByCode'', AsyncFunction (\<lambda>h args. getUserIdByCode h (arg args 0))),
      (''getAuthorizeURL'',
         SyncFunction (\<lambda>h args. getAuthorizeURL h (arg args 0) (arg args 1) (arg args 2)))]"

definition assign ::
  "(string \<rightharpoonup> ('w, 'e, 'r) exported) \<Rightarrow> string \<times> ('w, 'e, 'r) exported
     \<Rightarrow> (string \<rightharpoonup> ('w, 'e, 'r) exported)" where
  "assign ex kv = ex(fst kv \<mapsto> snd kv)"

definition exports :: "string \<rightharpoonup> ('w, 'e, 'r) exported" where
  "exports = foldl assign Map.empty assignments"


definition call_sync :: "('w, 'e, 'r) host \<Rightarrow> string \<Rightarrow> jsval list \<Rightarrow> string option" where
  "call_sync h name args =
     (case exports name of Some (SyncFunction f) \<Rightarrow> Some (f h args) | _ \<Rightarrow> None)"

section \<open>Hosts for the examples\<close>

text \<open>
  The world of \<open>demo_host\<close> counts the calls of its transport, which answers with the URL
  it was given; its accessor always resolves. The accessor of \<open>expired_host\<close> always
  rejects.
\<close>

definition demo_host :: "(nat, string, string) host" where
  "demo_host =
     \<lparr>prefix = ''https://qyapi.weixin.qq.com/cgi-bin/'',
      corpid = JStr ''wx1234'',
      agentid = JNum 1000002,
      ensureAccessToken = (\<lambda>w. (Inr \<lparr>accessToken = ''TOKEN''\<rparr>, w)),
      request = (\<lambda>url opts w. (Inr url, Suc w))\<rparr>"

definition expired_host :: "(nat, string, string) host" where
  "expired_host = demo_host\<lparr>ensureAccessToken := (\<lambda>w. (Inl ''expired'', w))\<rparr>"

text \<open>
  \<open>offline_host\<close> shares only the corpid with \<open>demo_host\<close>: its world is trivial and
  both of its collaborators reject.
\<close>

definition offline_host :: "(unit, unit, unit) host" where
  "offline_host =
     \<lparr>prefix = [],
      corpid = JStr ''wx1234'',
      agentid = JUndefined,
      ensureAccessToken = (\<lambda>w. (Inl (), w)),
      request = (\<lambda>url opts w. (Inl (), w))\<rparr>"

section \<open>The token-gated operations\<close>

lemma await_accessToken_rejected:
  "ensureAccessToken h w = (Inl e, w') \<Longrightarrow>
     await_accessToken h rest w = \<lparr>settled = Inl e, requests = [], world = w'\<rparr>"
  by (simp add: await_accessToken_def)

lemma await_accessToken_resolved:
  "ensureAccessToken h w = (Inr t, w') \<Longrightarrow> await_accessToken h rest w = rest (accessToken t) w'"
  by (simp add: await_accessToken_def)


lemmas operation_defs =
  getCallbackIp_def createUser_def updateUser_def deleteUser_single_def deleteUser_batch_def
  getUser_def getDepartmentUsers_def getDepartmentUsersDetail_def inviteUser_def
  getUserIdByCode_def



text \<open>
  C2. When the accessor rejects with an error, every token-gated operation rejects with
  that same error, and the transport is not invoked during the call: the log of requests
  is empty and the world is as the accessor left it.
\<close>

theorem accessor_rejection_propagates:
  assumes "ensureAccessToken h w = (Inl e, w')"
  shows "getCallbackIp h w = \<lparr>settled = Inl e, requests = [], world = w'\<rparr>
    \<and> createUser h user w = \<lparr>settled = Inl e, requests = [], world = w'\<rparr>
    \<and> updateUser h user w = \<lparr>settled = Inl e, requests = [], world = w'\<rparr>
    \<and> deleteUser_single h x w = \<lparr>settled = Inl e, requests = [], world = w'\<rparr>
    \<and> deleteUser_batch h users w = \<lparr>settled = Inl e, requests = [], world = w'\<rparr>
    \<and> getUser h x w = \<lparr>settled = Inl e, requests = [], world = w'\<rparr>
    \<and> getDepartmentUsers h departmentId fetchChild w
          = \<lparr>settled = Inl e, requests = [], world = w'\<rparr>
    \<and> getDepartmentUsersDetail h departmentId fetchChild w
          = \<lparr>settled = Inl e, requests = [], world = w'\<rparr>
    \<and> inviteUser h user party tag w = \<lparr>settled = Inl e, requests = [], world = w'\<rparr>
    \<and> getUserIdByCode h code w = \<lparr>settled = Inl e, requests = [], world = w'\<rparr>"
  using assms
  by (simp add: operation_defs await_accessToken_rejected)

theorem accessor_rejection_propagates_witness:
  "ensureAccessToken expired_host 5 = (Inl ''expired'', 5)
   \<and> createUser expired_host (JObj [(''userid'', JStr ''zhangsan'')]) 5
       = \<lparr>settled = Inl ''expired'', requests = [], world = 5\<rparr>
   \<and> getCallbackIp expired_host 5 = \<lparr>settled = Inl ''expired'', requests = [], world = 5\<rparr>"
proof -
  have rej: "ensureAccessToken expired_host 5 = (Inl ''expired'', 5)"
    by (simp add: expired_host_def demo_host_def)
  from accessor_rejection_propagates [OF rej, of "JObj [(''userid'', JStr ''zhangsan'')]"]
  show ?thesis using rej by simp
qed



text \<open>
  C7. With the token resolved, \<open>getCallbackIp\<close> invokes the transport exactly once, with
  the URL prefix + \<open>getcallbackip?access_token=\<close> + token and no options, and settles as
  that invocation settles; the world is left as the transport left it.
\<close>

theorem getCallbackIp_single_request:
  assumes "ensureAccessToken h w = (Inr t, w')"
  shows "requests (getCallbackIp h w)
           = [(prefix h @ ''getcallbackip?access_token='' @ accessToken t, None)]
    \<and> settled (getCallbackIp h w)
           = fst (request h (prefix h @ ''getcallbackip?access_token='' @ accessToken t) None w')
    \<and> world (getCallbackIp h w)
           = snd (request h (prefix h @ ''getcallbackip?access_token='' @ accessToken t) None w')"
  using assms
  by (simp add: getCallbackIp_def await_accessToken_resolved return_request_def Let_def
      split: prod.split)

theorem getCallbackIp_single_request_witness:
  "ensureAccessToken demo_host 0 = (Inr \<lparr>accessToken = ''TOKEN''\<rparr>, 0)
   \<and> requests (getCallbackIp demo_host 0)
        = [(''https://qyapi.weixin.qq.com/cgi-bin/getcallbackip?access_token=TOKEN'', None)]
   \<and> settled (getCallbackIp demo_host 0)
        = Inr ''https://qyapi.weixin.qq.com/cgi-bin/getcallbackip?access_token=TOKEN''
   \<and> world (getCallbackIp demo_host 0) = 1"
proof -
  have tok: "ensureAccessToken demo_host 0 = (Inr \<lparr>accessToken = ''TOKEN''\<rparr>, 0)"
    by (simp add: demo_host_def)
  from getCallbackIp_single_request [OF tok]
  show ?thesis using tok by (simp add: demo_host_def)
qed

subsection \<open>The configured agentid\<close>






subsection \<open>The name deleteUser\<close>




section \<open>Structured bodies\<close>








section \<open>The query string\<close>

text \<open>
  Both loops only ever append to the string built so far, and the outer loop can be cut
  at any key.
\<close>

lemma stringify_array_acc:
  "stringify_array ks acc j xs = acc @ stringify_array ks [] j xs"
proof (induction xs arbitrary: acc j)
  case Nil
  show ?case by simp
next
  case (Cons x xs)
  let ?f = "(if j \<noteq> 0 then acc @ ''&'' else acc) @ ks @ encodeStringified x"
  let ?g = "(if j \<noteq> 0 then [] @ ''&'' else []) @ ks @ encodeStringified x"
  have "stringify_array ks acc j (x # xs) = ?f @ stringify_array ks [] (Suc j) xs"
    using Cons.IH [of ?f "Suc j"] by simp
  moreover have "stringify_array ks [] j (x # xs) = ?g @ stringify_array ks [] (Suc j) xs"
    using Cons.IH [of ?g "Suc j"] by simp
  moreover have "?f = acc @ ?g" by simp
  ultimately show ?case by simp
qed

lemma stringify_fields_extends: "\<exists>t. stringify_fields acc kvs = acc @ t"
proof (induction kvs arbitrary: acc)
  case Nil
  show ?case by simp
next
  case (Cons kv kvs)
  obtain k v where kv: "kv = (k, v)" by (cases kv)
  let ?ks = "encodeStringified (JStr k) @ ''=''"
  let ?sep = "if acc \<noteq> [] then acc @ ''&'' else acc"
  have sep: "\<exists>s. ?sep = acc @ s" by simp
  show ?case
  proof (cases "\<exists>vs. v = JArr vs")
    case True
    then obtain vs where v: "v = JArr vs" by blast
    show ?thesis
    proof (cases "vs = []")
      case True
      with kv v Cons.IH [of acc] show ?thesis by simp
    next
      case False
      obtain t where t: "stringify_fields (stringify_array ?ks ?sep 0 vs) kvs
          = stringify_array ?ks ?sep 0 vs @ t"
        using Cons.IH by blast
      have "stringify_array ?ks ?sep 0 vs = ?sep @ stringify_array ?ks [] 0 vs"
        by (rule stringify_array_acc)
      with t sep kv v False show ?thesis by (auto simp: Let_def)
    qed
  next
    case False
    obtain t where t: "stringify_fields (?sep @ ?ks @ encodeStringified v) kvs
          = (?sep @ ?ks @ encodeStringified v) @ t"
      using Cons.IH by blast
    from False have "stringify_fields acc ((k, v) # kvs)
        = stringify_fields (?sep @ ?ks @ encodeStringified v) kvs"
      by (cases v) (simp_all add: Let_def)
    with t kv show ?thesis by (auto simp: Let_def)
  qed
qed

lemma stringify_fields_append:
  "stringify_fields acc (xs @ ys) = stringify_fields (stringify_fields acc xs) ys"
proof (induction xs arbitrary: acc)
  case Nil
  show ?case by simp
next
  case (Cons kv xs)
  obtain k v where kv: "kv = (k, v)" by (cases kv)
  show ?case unfolding kv by (cases v) (simp_all add: Let_def Cons.IH)
qed

lemma stringify_fields_nonempty:
  "acc \<noteq> [] \<Longrightarrow> stringify_fields acc kvs \<noteq> []"
  using stringify_fields_extends [of acc kvs] by auto

lemma stringify_fields_sublist:
  "sublist x acc \<Longrightarrow> sublist x (stringify_fields acc kvs)"
proof -
  assume x: "sublist x acc"
  obtain t where "stringify_fields acc kvs = acc @ t"
    using stringify_fields_extends by blast
  with x show ?thesis by (auto simp: sublist_append)
qed

subsection \<open>Occurrences of a word in a string\<close>

text \<open>
  A word that does not contain a separator occurs in a string on one side of each
  separator. A word that contains a character once, in a string that contains it once,
  occurs there around that character.
\<close>

lemma sublist_mid: "sublist x b \<Longrightarrow> sublist x (a @ b @ c)"
  by (auto simp: sublist_append)

lemma sublist_separator:
  assumes "c \<notin> set p"
  shows "sublist p (a @ c # b) \<longleftrightarrow> sublist p a \<or> sublist p b"
proof
  assume "sublist p (a @ c # b)"
  then consider "sublist p a" | "sublist p (c # b)"
    | xs1 xs2 where "p = xs1 @ xs2" "suffix xs1 a" "Sublist.prefix xs2 (c # b)"
    by (auto simp: sublist_append)
  then show "sublist p a \<or> sublist p b"
  proof cases
    case 1
    then show ?thesis by simp
  next
    case 2
    then have "Sublist.prefix p (c # b) \<or> sublist p b" by (simp add: sublist_Cons_right)
    moreover have "p = []" if "Sublist.prefix p (c # b)"
      using that assms by (cases p) auto
    ultimately show ?thesis by auto
  next
    case 3
    have "xs2 = []" using 3(1,3) assms by (cases xs2) auto
    with 3 show ?thesis by auto
  qed
next
  assume "sublist p a \<or> sublist p b"
  then show "sublist p (a @ c # b)"
    by (auto simp: sublist_append sublist_Cons_right)
qed

lemma first_occurrence_unique:
  "c \<notin> set x \<Longrightarrow> c \<notin> set u \<Longrightarrow> x @ c # y = u @ c # v \<Longrightarrow> x = u \<and> y = v"
proof (induction x arbitrary: u)
  case Nil
  then show ?case by (cases u) auto
next
  case (Cons a x)
  then show ?case by (cases u) auto
qed

lemma sublist_unique_char:
  assumes sub: "sublist (p1 @ c # p2) (x @ c # y)" and x: "c \<notin> set x" and y: "c \<notin> set y"
  shows "suffix p1 x \<and> Sublist.prefix p2 y"
proof -
  from sub obtain ps ss where eq: "x @ c # y = ps @ (p1 @ c # p2) @ ss"
    by (auto simp: sublist_def)
  have notin: "c \<notin> set (ps @ p1)"
  proof
    assume "c \<in> set (ps @ p1)"
    then obtain u1 u2 where u: "ps @ p1 = u1 @ c # u2" "c \<notin> set u1"
      by (meson split_list_first)
    from eq have "x @ c # y = (ps @ p1) @ c # p2 @ ss" by simp
    with u have "x @ c # y = u1 @ c # (u2 @ c # p2 @ ss)" by simp
    with x u(2) have "y = u2 @ c # p2 @ ss" by (blast dest: first_occurrence_unique)
    with y show False by simp
  qed
  from eq have "x @ c # y = (ps @ p1) @ c # (p2 @ ss)" by simp
  with x notin have "x = ps @ p1" "y = p2 @ ss" by (blast dest: first_occurrence_unique)+
  then show ?thesis by (auto simp: suffix_def Sublist.prefix_def)
qed

subsection \<open>No equals sign in an encoded value\<close>

text \<open>The equals sign is escaped, and neither a digit nor a boolean contains it.\<close>

lemma hex_digit_no_equals: "d < 16 \<Longrightarrow> hex_digit d \<noteq> CHR ''=''"
proof -
  assume "d < 16"
  then have "hex_digit d \<in> set ''0123456789ABCDEF''"
    unfolding hex_digit_def by (intro nth_mem) simp
  then show ?thesis by auto
qed

lemma digit_char_no_equals: "d < 10 \<Longrightarrow> digit_char d \<noteq> CHR ''=''"
proof -
  assume "d < 10"
  then have "digit_char d \<in> set ''0123456789''"
    unfolding digit_char_def by (intro nth_mem) simp
  then show ?thesis by auto
qed

lemma hexTable_no_equals: "CHR ''='' \<notin> set (hexTable c)"
proof -
  have "n div 16 < 16" if "n < 256" for n :: nat
    using that by arith
  then have "(of_char c :: nat) div 16 < 16" "(of_char c :: nat) mod 16 < 16"
    by (simp_all only: nat_of_char_less_256)
  then have "hex_digit ((of_char c :: nat) div 16) \<noteq> CHR ''=''"
    "hex_digit ((of_char c :: nat) mod 16) \<noteq> CHR ''=''"
    by (simp_all only: hex_digit_no_equals simp_thms)
  then show ?thesis by (simp add: hexTable_def)
qed

lemma qsEscape_no_equals: "CHR ''='' \<notin> set (qsEscape s)"
proof (induction s)
  case Nil
  show ?case by simp
next
  case (Cons c s)
  have "c \<noteq> CHR ''=''" if "noEscape c"
    using that by (auto simp: noEscape_def)
  with Cons hexTable_no_equals [of c] show ?case by auto
qed

lemma digits_of_no_equals: "CHR ''='' \<notin> set (digits_of n)"
proof (induction n rule: digits_of.induct)
  case (1 n)
  have m: "digit_char (n mod 10) \<noteq> CHR ''=''" by (rule digit_char_no_equals) simp
  show ?case
  proof (cases "n < 10")
    case True
    then have "digit_char n \<noteq> CHR ''=''" by (rule digit_char_no_equals)
    with True show ?thesis by (subst digits_of.simps) auto
  next
    case False
    with 1 m show ?thesis by (subst digits_of.simps) auto
  qed
qed

lemma encodeStringified_no_equals: "CHR ''='' \<notin> set (encodeStringified v)"
  by (cases v) (simp_all add: qsEscape_no_equals number_to_string_def digits_of_no_equals)

lemma qsEscape_Nil_iff: "qsEscape s = [] \<longleftrightarrow> s = []"
  by (cases s) (auto simp: hexTable_def)

subsection \<open>The appid field\<close>

text \<open>
  Whatever the configured corpid (a string, a number, an array, nothing at all), the
  field that it contributes does not contain \<open>scope=snsapi_base\<close>.
\<close>

lemma stringify_array_Cons:
  "stringify_array ks [] j (x # xs)
     = ((if j \<noteq> 0 then ''&'' else []) @ ks @ encodeStringified x) @ stringify_array ks [] (Suc j) xs"
proof -
  let ?f = "(if j \<noteq> 0 then [] @ ''&'' else []) @ ks @ encodeStringified x"
  have "stringify_array ks [] j (x # xs) = stringify_array ks ?f (Suc j) xs"
    by (simp only: stringify_array.simps)
  also have "\<dots> = ?f @ stringify_array ks [] (Suc j) xs"
    by (rule stringify_array_acc)
  finally show ?thesis by simp
qed

lemma keys_unescaped:
  "encodeStringified (JStr ''appid'') = ''appid''"
  "encodeStringified (JStr ''redirect_uri'') = ''redirect_uri''"
  "encodeStringified (JStr ''response_type'') = ''response_type''"
  "encodeStringified (JStr ''scope'') = ''scope''"
  "encodeStringified (JStr ''state'') = ''state''"
  by (simp_all add: noEscape_def)

lemma stringify_array_tail:
  "stringify_array ks [] (Suc j) xs = [] \<or> (\<exists>t. stringify_array ks [] (Suc j) xs = CHR ''&'' # t)"
proof (cases xs)
  case Nil
  then show ?thesis by simp
next
  case (Cons x xs')
  show ?thesis unfolding Cons by (subst stringify_array_Cons) simp
qed

lemma no_default_scope_in_field:
  "\<not> sublist ''scope=snsapi_base'' (''appid='' @ encodeStringified v)"
proof
  assume "sublist ''scope=snsapi_base'' (''appid='' @ encodeStringified v)"
  then have "sublist (''scope'' @ CHR ''='' # ''snsapi_base'') (''appid'' @ CHR ''='' # encodeStringified v)"
    by simp
  then have "suffix ''scope'' ''appid''"
    by (rule sublist_unique_char [THEN conjunct1]) (simp_all add: encodeStringified_no_equals)
  then show False by (simp add: suffix_def)
qed

lemma no_default_scope_in_array:
  "\<not> sublist ''scope=snsapi_base'' (stringify_array ''appid='' [] j vs)"
proof (induction vs arbitrary: j)
  case Nil
  show ?case by simp
next
  case (Cons v vs)
  let ?p = "''scope=snsapi_base''"
  let ?T = "stringify_array ''appid='' [] (Suc j) vs"
  let ?seg = "''appid='' @ encodeStringified v"
  have amp: "CHR ''&'' \<notin> set ?p" by simp
  have seg: "\<not> sublist ?p ?seg" by (rule no_default_scope_in_field)
  have seg': "\<not> sublist ?p (CHR ''&'' # ?seg)"
    using sublist_separator [OF amp, of "[]" ?seg] seg by simp
  let ?first = "(if j \<noteq> 0 then ''&'' else []) @ ?seg"
  have first: "\<not> sublist ?p ?first" using seg seg' by simp
  have shape: "stringify_array ''appid='' [] j (v # vs) = ?first @ ?T"
    by (rule stringify_array_Cons)
  from stringify_array_tail [of "''appid=''" j vs] show ?case
  proof
    assume "?T = []"
    with shape first show ?thesis by simp
  next
    assume "\<exists>t. ?T = CHR ''&'' # t"
    then obtain t where t: "?T = CHR ''&'' # t" by blast
    have "\<not> sublist ?p t"
      using Cons.IH [of "Suc j"] t by (simp add: sublist_Cons_right)
    with first have "\<not> sublist ?p (?first @ CHR ''&'' # t)"
      by (simp only: sublist_separator [OF amp] simp_thms)
    with shape t show ?thesis by simp
  qed
qed

lemma no_default_scope_in_appid:
  "\<not> sublist ''scope=snsapi_base'' (stringify_fields [] [(''appid'', c)])"
proof (cases "\<exists>vs. c = JArr vs")
  case True
  then obtain vs where "c = JArr vs" by blast
  then show ?thesis
    using no_default_scope_in_array [of 0 vs] by (simp del: encodeStringified.simps add: keys_unescaped)
next
  case False
  then have "stringify_fields [] [(''appid'', c)] = ''appid='' @ encodeStringified c"
    by (cases c) (simp_all del: encodeStringified.simps add: keys_unescaped)
  then show ?thesis using no_default_scope_in_field [of c] by simp
qed

subsection \<open>The shape of the authorization URL\<close>

text \<open>
  The fields after \<open>appid\<close> are added to whatever the appid field has produced; for the
  example of the spec they are known in full.
\<close>

lemma getAuthorizeURL_fields:
  "getAuthorizeURL h redirect state scope
     = ''https://open.weixin.qq.com/connect/oauth2/authorize'' @ CHR ''?'' #
       stringify_fields (stringify_fields [] [(''appid'', corpid h)])
         [(''redirect_uri'', redirect), (''response_type'', JStr ''code''),
          (''scope'', js_or scope (JStr ''snsapi_base'')), (''state'', js_or state (JStr []))]
       @ ''#wechat_redirect''"
proof -
  have "stringify_fields [] ([(''appid'', corpid h)] @
          [(''redirect_uri'', redirect), (''response_type'', JStr ''code''),
           (''scope'', js_or scope (JStr ''snsapi_base'')), (''state'', js_or state (JStr []))])
      = stringify_fields (stringify_fields [] [(''appid'', corpid h)])
          [(''redirect_uri'', redirect), (''response_type'', JStr ''code''),
           (''scope'', js_or scope (JStr ''snsapi_base'')), (''state'', js_or state (JStr []))]"
    by (rule stringify_fields_append)
  then show ?thesis
    by (simp add: getAuthorizeURL_def querystring_stringify_def Let_def)
qed

lemma example_redirect: "qsEscape ''https://cb.example'' = ''https%3A%2F%2Fcb.example''"
  by (simp add: noEscape_def hexTable_def hex_digit_def)

lemma example_fields:
  "stringify_fields acc
     [(''redirect_uri'', JStr ''https://cb.example''), (''response_type'', JStr ''code''),
      (''scope'', JStr scope), (''state'', JStr ''s1'')]
   = (if acc \<noteq> [] then acc @ ''&'' else acc)
     @ ''redirect_uri=https%3A%2F%2Fcb.example&response_type=code&scope='' @ qsEscape scope @ ''&state=s1''"
  by (simp del: encodeStringified.simps qsEscape.simps
      add: keys_unescaped encodeStringified.simps(1) example_redirect Let_def)
    (simp add: noEscape_def)
lemma example_url:
  "getAuthorizeURL h (JStr ''https://cb.example'') (JStr ''s1'') (JStr scope)
     = (''https://open.weixin.qq.com/connect/oauth2/authorize'' @ CHR ''?'' #
        (if stringify_fields [] [(''appid'', corpid h)] \<noteq> []
         then stringify_fields [] [(''appid'', corpid h)] @ ''&'' else []))
       @ ''redirect_uri=https%3A%2F%2Fcb.example&response_type=code&scope=''
       @ qsEscape (if scope = [] then ''snsapi_base'' else scope)
       @ ''&state=s1#wechat_redirect''"
proof -
  have scope: "js_or (JStr scope) (JStr ''snsapi_base'')
      = JStr (if scope = [] then ''snsapi_base'' else scope)"
    by (simp add: js_or_def)
  have state: "js_or (JStr ''s1'') (JStr []) = JStr ''s1''"
    by (simp add: js_or_def)
  show ?thesis
    unfolding getAuthorizeURL_fields scope state example_fields
    by (simp del: qsEscape.simps)
qed

lemma example_url_default:
  "getAuthorizeURL h (JStr ''https://cb.example'') (JStr ''s1'') JUndefined
     = getAuthorizeURL h (JStr ''https://cb.example'') (JStr ''s1'') (JStr ''snsapi_base'')"
  by (simp add: getAuthorizeURL_def js_or_def)

lemma snsapi_unescaped:
  "qsEscape ''snsapi_base'' = ''snsapi_base''" "qsEscape ''snsapi_userinfo'' = ''snsapi_userinfo''"
  by (simp_all add: noEscape_def)

text \<open>
  C4. \<open>getAuthorizeURL("https://cb.example", "s1")\<close>, called with no scope argument,
  returns a URL that contains \<open>scope=snsapi_base\<close>, \<open>state=s1\<close> and
  \<open>redirect_uri=https%3A%2F%2Fcb.example\<close> and ends with \<open>#wechat_redirect\<close>, whatever
  the configured corpid. With the scope \<open>snsapi_userinfo\<close> the URL contains
  \<open>scope=snsapi_userinfo\<close> and does not contain \<open>scope=snsapi_base\<close>.
\<close>

theorem getAuthorizeURL_example:
  "call_sync h ''getAuthorizeURL'' [JStr ''https://cb.example'', JStr ''s1'']
     = Some (getAuthorizeURL h (JStr ''https://cb.example'') (JStr ''s1'') JUndefined)
   \<and> sublist ''scope=snsapi_base''
         (getAuthorizeURL h (JStr ''https://cb.example'') (JStr ''s1'') JUndefined)
   \<and> sublist ''state=s1''
         (getAuthorizeURL h (JStr ''https://cb.example'') (JStr ''s1'') JUndefined)
   \<and> sublist ''redirect_uri=https%3A%2F%2Fcb.example''
         (getAuthorizeURL h (JStr ''https://cb.example'') (JStr ''s1'') JUndefined)
   \<and> suffix ''#wechat_redirect''
         (getAuthorizeURL h (JStr ''https://cb.example'') (JStr ''s1'') JUndefined)
   \<and> sublist ''scope=snsapi_userinfo''
         (getAuthorizeURL h (JStr ''https://cb.example'') (JStr ''s1'') (JStr ''snsapi_userinfo''))
   \<and> \<not> sublist ''scope=snsapi_base''
         (getAuthorizeURL h (JStr ''https://cb.example'') (JStr ''s1'') (JStr ''snsapi_userinfo''))"
proof -
  let ?base = "''https://open.weixin.qq.com/connect/oauth2/authorize''"
  let ?F = "stringify_fields [] [(''appid'', corpid h)]"
  let ?A = "?base @ CHR ''?'' # (if ?F \<noteq> [] then ?F @ ''&'' else [])"
  let ?T = "''redirect_uri=https%3A%2F%2Fcb.example&response_type=code&scope=snsapi_base&state=s1#wechat_redirect''"
  let ?T' = "''redirect_uri=https%3A%2F%2Fcb.example&response_type=code&scope=snsapi_userinfo&state=s1#wechat_redirect''"
  let ?p = "''scope=snsapi_base''"
  have U: "getAuthorizeURL h (JStr ''https://cb.example'') (JStr ''s1'') JUndefined = ?A @ ?T"
    by (simp add: example_url_default example_url snsapi_unescaped del: qsEscape.simps)
  have V: "getAuthorizeURL h (JStr ''https://cb.example'') (JStr ''s1'') (JStr ''snsapi_userinfo'')
      = ?A @ ?T'"
    by (simp add: example_url snsapi_unescaped del: qsEscape.simps)
  have call: "call_sync h ''getAuthorizeURL'' [JStr ''https://cb.example'', JStr ''s1'']
     = Some (getAuthorizeURL h (JStr ''https://cb.example'') (JStr ''s1'') JUndefined)"
    by (simp add: call_sync_def exports_def assignments_def assign_def arg_def)
  have 1: "sublist ?p ?T" by code_simp
  have 2: "sublist ''state=s1'' ?T" by code_simp
  have 3: "sublist ''redirect_uri=https%3A%2F%2Fcb.example'' ?T" by code_simp
  have 4: "suffix ''#wechat_redirect'' ?T" by code_simp
  have 5: "sublist ''scope=snsapi_userinfo'' ?T'" by code_simp
  have 6: "\<not> sublist ?p ?T'" by code_simp
  have 7: "\<not> sublist ?p ?base" by code_simp
  have q: "CHR ''?'' \<notin> set ?p" and amp: "CHR ''&'' \<notin> set ?p" by simp_all
  have "\<not> sublist ?p ((if ?F \<noteq> [] then ?F @ ''&'' else []) @ ?T')"
  proof (cases "?F = []")
    case True
    with 6 show ?thesis by simp
  next
    case False
    have "\<not> sublist ?p (?F @ CHR ''&'' # ?T')"
      using no_default_scope_in_appid [of "corpid h"] 6
      by (simp only: sublist_separator [OF amp] simp_thms)
    with False show ?thesis by simp
  qed
  with 7 have "\<not> sublist ?p (?base @ CHR ''?'' # ((if ?F \<noteq> [] then ?F @ ''&'' else []) @ ?T'))"
    by (simp only: sublist_separator [OF q] simp_thms)
  then have 8: "\<not> sublist ?p (?A @ ?T')" by simp
  from 1 2 3 have "sublist ?p (?A @ ?T)" "sublist ''state=s1'' (?A @ ?T)"
    "sublist ''redirect_uri=https%3A%2F%2Fcb.example'' (?A @ ?T)"
    by (simp_all only: sublist_append simp_thms)
  moreover from 4 have "suffix ''#wechat_redirect'' (?A @ ?T)" by (rule suffix_appendI)
  moreover from 5 have "sublist ''scope=snsapi_userinfo'' (?A @ ?T')"
    by (simp only: sublist_append simp_thms)
  ultimately show ?thesis using call 8 by (simp only: U V simp_thms)
qed

theorem getAuthorizeURL_example_witness:
  "getAuthorizeURL demo_host (JStr ''https://cb.example'') (JStr ''s1'') JUndefined
     = ''https://open.weixin.qq.com/connect/oauth2/authorize?appid=wx1234&redirect_uri=https%3A%2F%2Fcb.example&response_type=code&scope=snsapi_base&state=s1#wechat_redirect''
   \<and> sublist ''scope=snsapi_base''
        (getAuthorizeURL demo_host (JStr ''https://cb.example'') (JStr ''s1'') JUndefined)
   \<and> suffix ''#wechat_redirect''
        (getAuthorizeURL demo_host (JStr ''https://cb.example'') (JStr ''s1'') JUndefined)
   \<and> \<not> sublist ''scope=snsapi_base''
        (getAuthorizeURL demo_host (JStr ''https://cb.example'') (JStr ''s1'')
           (JStr ''snsapi_userinfo''))"
proof -
  have url: "getAuthorizeURL demo_host (JStr ''https://cb.example'') (JStr ''s1'') JUndefined
     = ''https://open.weixin.qq.com/connect/oauth2/authorize?appid=wx1234&redirect_uri=https%3A%2F%2Fcb.example&response_type=code&scope=snsapi_base&state=s1#wechat_redirect''"
    by (simp add: getAuthorizeURL_def querystring_stringify_def js_or_def demo_host_def
        noEscape_def hexTable_def hex_digit_def)
  note example = getAuthorizeURL_example [of demo_host]
  from url example show ?thesis by (simp only: simp_thms)
qed
lemma response_type_field:
  "stringify_fields acc [(''response_type'', JStr ''code'')]
     = (if acc \<noteq> [] then acc @ ''&'' else acc) @ ''response_type=code''"
  by (simp add: noEscape_def)

lemma getAuthorizeURL_after_response_type:
  "\<exists>pre. pre \<noteq> [] \<and> sublist ''response_type=code'' pre
     \<and> suffix ''response_type=code'' pre
     \<and> getAuthorizeURL h redirect state scope
         = ''https://open.weixin.qq.com/connect/oauth2/authorize'' @ ''?'' @
           stringify_fields pre
             [(''scope'', js_or scope (JStr ''snsapi_base'')), (''state'', js_or state (JStr []))]
           @ ''#wechat_redirect''"
proof -
  let ?G = "stringify_fields [] [(''appid'', corpid h), (''redirect_uri'', redirect)]"
  let ?pre = "stringify_fields ?G [(''response_type'', JStr ''code'')]"
  let ?last = "[(''scope'', js_or scope (JStr ''snsapi_base'')), (''state'', js_or state (JStr []))]"
  have pre: "?pre = (if ?G \<noteq> [] then ?G @ ''&'' else ?G) @ ''response_type=code''"
    by (rule response_type_field)
  have "stringify_fields []
          (([(''appid'', corpid h), (''redirect_uri'', redirect)] @ [(''response_type'', JStr ''code'')])
            @ ?last)
      = stringify_fields ?pre ?last"
    by (simp only: stringify_fields_append)
  then have "getAuthorizeURL h redirect state scope
      = ''https://open.weixin.qq.com/connect/oauth2/authorize'' @ ''?'' @
        stringify_fields ?pre ?last @ ''#wechat_redirect''"
    by (simp add: getAuthorizeURL_def querystring_stringify_def Let_def)
  moreover have "?pre \<noteq> []" by (simp only: pre) simp
  moreover have "sublist ''response_type=code'' ?pre" by (simp only: pre sublist_append_leftI)
  moreover have "suffix ''response_type=code'' ?pre"
    by (simp only: pre suffix_appendI suffix_order.refl)
  ultimately show ?thesis by blast
qed

text \<open>
  C9. \<open>getAuthorizeURL\<close> is a synchronous function of its three arguments and of the
  configured corpid alone: two hosts with the same corpid give the same URL, whatever
  their prefix, agentid, accessor, transport and world. The corpid is the value of
  \<open>appid\<close>, and \<open>response_type=code\<close> is in every URL it returns.
\<close>

theorem getAuthorizeURL_pure:
  fixes h :: "('w, 'e, 'r) host" and h' :: "('v, 'd, 'q) host"
  assumes "corpid h = corpid h'"
  shows "getAuthorizeURL h redirect state scope = getAuthorizeURL h' redirect state scope
    \<and> call_sync h ''getAuthorizeURL'' [redirect, state, scope]
        = Some (getAuthorizeURL h redirect state scope)
    \<and> getAuthorizeURL h redirect state scope
        = ''https://open.weixin.qq.com/connect/oauth2/authorize'' @ ''?'' @
          querystring_stringify
            [(''appid'', corpid h), (''redirect_uri'', redirect), (''response_type'', JStr ''code''),
             (''scope'', js_or scope (JStr ''snsapi_base'')), (''state'', js_or state (JStr []))]
          @ ''#wechat_redirect''
    \<and> sublist ''response_type=code'' (getAuthorizeURL h redirect state scope)"
proof -
  obtain pre where pre: "sublist ''response_type=code'' pre"
    and url: "getAuthorizeURL h redirect state scope
         = ''https://open.weixin.qq.com/connect/oauth2/authorize'' @ ''?'' @
           stringify_fields pre
             [(''scope'', js_or scope (JStr ''snsapi_base'')), (''state'', js_or state (JStr []))]
           @ ''#wechat_redirect''"
    using getAuthorizeURL_after_response_type by blast
  from pre have "sublist ''response_type=code''
      (stringify_fields pre
         [(''scope'', js_or scope (JStr ''snsapi_base'')), (''state'', js_or state (JStr []))])"
    by (rule stringify_fields_sublist)
  then have "sublist ''response_type=code''
      ((''https://open.weixin.qq.com/connect/oauth2/authorize'' @ ''?'') @
       stringify_fields pre
         [(''scope'', js_or scope (JStr ''snsapi_base'')), (''state'', js_or state (JStr []))]
       @ ''#wechat_redirect'')"
    by (rule sublist_mid)
  then have "sublist ''response_type=code'' (getAuthorizeURL h redirect state scope)"
    by (simp only: url append_assoc)
  moreover have "call_sync h ''getAuthorizeURL'' [redirect, state, scope]
        = Some (getAuthorizeURL h redirect state scope)"
    by (simp add: call_sync_def exports_def assignments_def assign_def arg_def)
  ultimately show ?thesis
    using assms by (simp add: getAuthorizeURL_def)
qed

theorem getAuthorizeURL_pure_witness:
  "corpid demo_host = corpid offline_host
   \<and> getAuthorizeURL demo_host (JStr ''https://cb.example'') (JStr ''s1'') JUndefined
       = getAuthorizeURL offline_host (JStr ''https://cb.example'') (JStr ''s1'') JUndefined
   \<and> getAuthorizeURL offline_host (JStr ''https://cb.example'') (JStr ''s1'') JUndefined
       = ''https://open.weixin.qq.com/connect/oauth2/authorize?appid=wx1234&redirect_uri=https%3A%2F%2Fcb.example&response_type=code&scope=snsapi_base&state=s1#wechat_redirect''"
proof -
  have c: "corpid demo_host = corpid offline_host"
    by (simp add: demo_host_def offline_host_def)
  from getAuthorizeURL_pure [OF c, of "JStr ''https://cb.example''" "JStr ''s1''" JUndefined]
  show ?thesis
    using c
    by (simp add: getAuthorizeURL_def querystring_stringify_def js_or_def offline_host_def
        noEscape_def hexTable_def hex_digit_def)
qed
lemma encodeStringified_JStr: "encodeStringified (JStr s) = qsEscape s"
  by (cases s) simp_all

lemma string_field:
  "acc \<noteq> [] \<Longrightarrow>
     stringify_fields acc [(k, JStr s)] = acc @ ''&'' @ qsEscape k @ ''='' @ qsEscape s"
  by (simp add: Let_def encodeStringified_JStr del: encodeStringified.simps qsEscape.simps)

lemma scope_state_unescaped: "qsEscape ''scope'' = ''scope''" "qsEscape ''state'' = ''state''"
  by (simp_all add: noEscape_def)

lemma stringify_fields_Cons:
  "stringify_fields acc (kv # kvs) = stringify_fields (stringify_fields acc [kv]) kvs"
  using stringify_fields_append [of acc "[kv]" kvs] by simp

lemma scope_field:
  assumes "js_or scope (JStr ''snsapi_base'') = JStr s"
  shows "sublist (''&scope='' @ qsEscape s) (getAuthorizeURL h redirect state scope)"
proof -
  obtain pre where pre: "pre \<noteq> []"
    and url: "getAuthorizeURL h redirect state scope
         = ''https://open.weixin.qq.com/connect/oauth2/authorize'' @ ''?'' @
           stringify_fields pre
             [(''scope'', js_or scope (JStr ''snsapi_base'')), (''state'', js_or state (JStr []))]
           @ ''#wechat_redirect''"
    using getAuthorizeURL_after_response_type by blast
  let ?G = "stringify_fields pre [(''scope'', JStr s)]"
  have G: "?G = pre @ ''&scope='' @ qsEscape s"
    by (simp only: string_field [OF pre] scope_state_unescaped) simp
  have "sublist (''&scope='' @ qsEscape s) ?G"
    by (simp only: G sublist_append_leftI)
  then have "sublist (''&scope='' @ qsEscape s)
      (stringify_fields ?G [(''state'', js_or state (JStr []))])"
    by (rule stringify_fields_sublist)
  moreover have "stringify_fields pre [(''scope'', JStr s), (''state'', js_or state (JStr []))]
      = stringify_fields ?G [(''state'', js_or state (JStr []))]"
    by (rule stringify_fields_Cons)
  ultimately have "sublist (''&scope='' @ qsEscape s)
      (stringify_fields pre [(''scope'', JStr s), (''state'', js_or state (JStr []))])"
    by (simp only:)
  then have "sublist (''&scope='' @ qsEscape s)
      ((''https://open.weixin.qq.com/connect/oauth2/authorize'' @ ''?'') @
       stringify_fields pre [(''scope'', JStr s), (''state'', js_or state (JStr []))]
       @ ''#wechat_redirect'')"
    by (rule sublist_mid)
  then show ?thesis by (simp only: url assms append_assoc)
qed

lemma empty_state_field:
  assumes "\<not> truthy state"
  shows "suffix ''&state=#wechat_redirect'' (getAuthorizeURL h redirect state scope)"
proof -
  obtain pre where pre: "pre \<noteq> []"
    and url: "getAuthorizeURL h redirect state scope
         = ''https://open.weixin.qq.com/connect/oauth2/authorize'' @ ''?'' @
           stringify_fields pre
             [(''scope'', js_or scope (JStr ''snsapi_base'')), (''state'', js_or state (JStr []))]
           @ ''#wechat_redirect''"
    using getAuthorizeURL_after_response_type by blast
  let ?G = "stringify_fields pre [(''scope'', js_or scope (JStr ''snsapi_base''))]"
  have state: "js_or state (JStr []) = JStr []"
    using assms by (simp add: js_or_def)
  have G: "?G \<noteq> []" using pre by (rule stringify_fields_nonempty)
  have "stringify_fields pre
          [(''scope'', js_or scope (JStr ''snsapi_base'')), (''state'', JStr [])]
      = stringify_fields ?G [(''state'', JStr [])]"
    by (rule stringify_fields_Cons)
  also have "\<dots> = ?G @ ''&state=''"
    by (simp only: string_field [OF G] scope_state_unescaped qsEscape.simps(1)) simp
  finally have "getAuthorizeURL h redirect state scope
      = (''https://open.weixin.qq.com/connect/oauth2/authorize'' @ ''?'' @ ?G)
        @ ''&state=#wechat_redirect''"
    by (simp only: url state) simp
  then show ?thesis by (simp only: suffix_appendI suffix_order.refl)
qed

text \<open>
  A value that is not an array gives one field. So the end of the URL is known from the
  scope and a string state, and the empty array as scope leaves the scope field out.
\<close>

lemma plain_field:
  assumes "acc \<noteq> []" and "\<forall>vs. v \<noteq> JArr vs"
  shows "stringify_fields acc [(k, v)] = acc @ ''&'' @ qsEscape k @ ''='' @ encodeStringified v"
  using assms
  by (cases v)
    (simp_all add: Let_def encodeStringified_JStr del: encodeStringified.simps qsEscape.simps)

lemma scope_value_tail:
  assumes "\<forall>vs. js_or scope (JStr ''snsapi_base'') \<noteq> JArr vs"
  shows "suffix (''&scope='' @ encodeStringified (js_or scope (JStr ''snsapi_base''))
                 @ ''&state='' @ qsEscape st @ ''#wechat_redirect'')
           (getAuthorizeURL h redirect (JStr st) scope)"
proof -
  obtain pre where pre: "pre \<noteq> []"
    and url: "getAuthorizeURL h redirect (JStr st) scope
         = ''https://open.weixin.qq.com/connect/oauth2/authorize'' @ ''?'' @
           stringify_fields pre
             [(''scope'', js_or scope (JStr ''snsapi_base'')),
              (''state'', js_or (JStr st) (JStr []))]
           @ ''#wechat_redirect''"
    using getAuthorizeURL_after_response_type by blast
  have state: "js_or (JStr st) (JStr []) = JStr st"
    by (simp add: js_or_def)
  obtain G where G: "G = stringify_fields pre [(''scope'', js_or scope (JStr ''snsapi_base''))]"
    by blast
  have G': "G = pre @ ''&scope='' @ encodeStringified (js_or scope (JStr ''snsapi_base''))"
    by (simp only: G plain_field [OF pre assms] scope_state_unescaped) simp
  then have nonempty: "G \<noteq> []" using pre by simp
  have "stringify_fields pre
          [(''scope'', js_or scope (JStr ''snsapi_base'')), (''state'', JStr st)]
      = stringify_fields G [(''state'', JStr st)]"
    unfolding G by (rule stringify_fields_Cons)
  also have "\<dots> = G @ ''&state='' @ qsEscape st"
    by (simp only: string_field [OF nonempty] scope_state_unescaped) simp
  finally have "getAuthorizeURL h redirect (JStr st) scope
      = (''https://open.weixin.qq.com/connect/oauth2/authorize'' @ ''?'' @ pre)
        @ (''&scope='' @ encodeStringified (js_or scope (JStr ''snsapi_base''))
           @ ''&state='' @ qsEscape st @ ''#wechat_redirect'')"
    by (simp only: url state G') simp
  then show ?thesis by (simp only: suffix_appendI suffix_order.refl)
qed

lemma empty_array_field:
  "stringify_fields acc ((k, JArr []) # rest) = stringify_fields acc rest"
  by simp

lemma empty_array_scope:
  "suffix (''response_type=code&state='' @ qsEscape st @ ''#wechat_redirect'')
     (getAuthorizeURL h redirect (JStr st) (JArr []))"
proof -
  obtain pre where pre: "pre \<noteq> []" and response: "suffix ''response_type=code'' pre"
    and url: "getAuthorizeURL h redirect (JStr st) (JArr [])
         = ''https://open.weixin.qq.com/connect/oauth2/authorize'' @ ''?'' @
           stringify_fields pre
             [(''scope'', js_or (JArr []) (JStr ''snsapi_base'')),
              (''state'', js_or (JStr st) (JStr []))]
           @ ''#wechat_redirect''"
    using getAuthorizeURL_after_response_type by blast
  from response obtain p where p: "pre = p @ ''response_type=code''"
    by (auto simp: suffix_def)
  have state: "js_or (JStr st) (JStr []) = JStr st"
    by (simp add: js_or_def)
  have scope: "js_or (JArr []) (JStr ''snsapi_base'') = JArr []"
    by (simp add: js_or_def)
  have "stringify_fields pre [(''scope'', JArr []), (''state'', JStr st)]
      = stringify_fields pre [(''state'', JStr st)]"
    by (rule empty_array_field)
  also have "\<dots> = pre @ ''&state='' @ qsEscape st"
    by (simp only: string_field [OF pre] scope_state_unescaped) simp
  finally have "getAuthorizeURL h redirect (JStr st) (JArr [])
      = (''https://open.weixin.qq.com/connect/oauth2/authorize'' @ ''?'' @ p)
        @ (''response_type=code&state='' @ qsEscape st @ ''#wechat_redirect'')"
    by (simp only: url state scope) (simp add: p)
  then show ?thesis by (simp only: suffix_appendI suffix_order.refl)
qed

text \<open>
  C10, as amended. The defaults of \<open>getAuthorizeURL\<close> go by truthiness. With a falsy state
  (omitted, undefined, the empty string, or any other falsy value) the URL ends with an
  empty \<open>state=\<close>. With a falsy scope, the empty string included, the URL is the one for
  the scope \<open>snsapi_base\<close> and contains \<open>&scope=snsapi_base\<close>. An explicit empty scope cannot
  be expressed by a string: for every string \<open>s\<close> given as scope the URL carries a scope
  field whose value is not empty. A truthy scope that is not a string is not defaulted:
  with a string state, an object and the number Infinity give the scope field an empty
  value, and the empty array gives no scope field at all.
\<close>

theorem getAuthorizeURL_defaults_by_truthiness:
  "(\<not> truthy state \<longrightarrow>
      suffix ''&state=#wechat_redirect'' (getAuthorizeURL h redirect state scope))
   \<and> call_sync h ''getAuthorizeURL'' [redirect]
       = Some (getAuthorizeURL h redirect JUndefined JUndefined)
   \<and> (\<not> truthy scope \<longrightarrow>
        getAuthorizeURL h redirect state scope
          = getAuthorizeURL h redirect state (JStr ''snsapi_base'')
        \<and> sublist ''&scope=snsapi_base'' (getAuthorizeURL h redirect state scope))
   \<and> getAuthorizeURL h redirect state (JStr [])
       = getAuthorizeURL h redirect state (JStr ''snsapi_base'')
   \<and> sublist (''&scope='' @ qsEscape (if s = [] then ''snsapi_base'' else s))
        (getAuthorizeURL h redirect state (JStr s))
   \<and> qsEscape (if s = [] then ''snsapi_base'' else s) \<noteq> []
   \<and> suffix (''&scope=&state='' @ qsEscape st @ ''#wechat_redirect'')
        (getAuthorizeURL h redirect (JStr st) (JObj ps))
   \<and> suffix (''&scope=&state='' @ qsEscape st @ ''#wechat_redirect'')
        (getAuthorizeURL h redirect (JStr st) JInfinity)
   \<and> suffix (''response_type=code&state='' @ qsEscape st @ ''#wechat_redirect'')
        (getAuthorizeURL h redirect (JStr st) (JArr []))"
proof -
  have call: "call_sync h ''getAuthorizeURL'' [redirect]
       = Some (getAuthorizeURL h redirect JUndefined JUndefined)"
    by (simp add: call_sync_def exports_def assignments_def assign_def arg_def)
  have default: "js_or scope (JStr ''snsapi_base'') = JStr ''snsapi_base''" if "\<not> truthy scope"
    using that by (simp add: js_or_def)
  have same: "getAuthorizeURL h redirect state sc
          = getAuthorizeURL h redirect state (JStr ''snsapi_base'')" if "\<not> truthy sc" for sc
    using that by (simp add: getAuthorizeURL_def js_or_def)
  have contains: "sublist ''&scope=snsapi_base'' (getAuthorizeURL h redirect state scope)"
    if "\<not> truthy scope"
    using scope_field [OF default [OF that], of h redirect state]
    by (simp only: snsapi_unescaped) simp
  have string: "js_or (JStr s) (JStr ''snsapi_base'') = JStr (if s = [] then ''snsapi_base'' else s)"
    by (simp add: js_or_def)
  have nonempty: "qsEscape (if s = [] then ''snsapi_base'' else s) \<noteq> []"
    by (simp only: qsEscape_Nil_iff) simp
  have object: "suffix (''&scope=&state='' @ qsEscape st @ ''#wechat_redirect'')
        (getAuthorizeURL h redirect (JStr st) (JObj ps))"
    using scope_value_tail [of "JObj ps" st h redirect] by (simp add: js_or_def del: qsEscape.simps)
  have infinity: "suffix (''&scope=&state='' @ qsEscape st @ ''#wechat_redirect'')
        (getAuthorizeURL h redirect (JStr st) JInfinity)"
    using scope_value_tail [of JInfinity st h redirect] by (simp add: js_or_def del: qsEscape.simps)
  have first: "(\<not> truthy state \<longrightarrow>
      suffix ''&state=#wechat_redirect'' (getAuthorizeURL h redirect state scope))
   \<and> call_sync h ''getAuthorizeURL'' [redirect]
       = Some (getAuthorizeURL h redirect JUndefined JUndefined)
   \<and> (\<not> truthy scope \<longrightarrow>
        getAuthorizeURL h redirect state scope
          = getAuthorizeURL h redirect state (JStr ''snsapi_base'')
        \<and> sublist ''&scope=snsapi_base'' (getAuthorizeURL h redirect state scope))
   \<and> getAuthorizeURL h redirect state (JStr [])
       = getAuthorizeURL h redirect state (JStr ''snsapi_base'')
   \<and> sublist (''&scope='' @ qsEscape (if s = [] then ''snsapi_base'' else s))
        (getAuthorizeURL h redirect state (JStr s))
   \<and> qsEscape (if s = [] then ''snsapi_base'' else s) \<noteq> []"
    using empty_state_field [of state h redirect scope] call same [of scope] contains
      same [of "JStr []"] scope_field [OF string, of h redirect state] nonempty
    by (simp del: qsEscape.simps)
  from first object infinity empty_array_scope [of st h redirect] show ?thesis by blast
qed

theorem getAuthorizeURL_defaults_by_truthiness_witness:
  "\<not> truthy JUndefined \<and> \<not> truthy (JStr [])
   \<and> suffix ''&state=#wechat_redirect''
        (getAuthorizeURL demo_host (JStr ''https://cb.example'') JUndefined (JStr []))
   \<and> sublist ''&scope=snsapi_base''
        (getAuthorizeURL demo_host (JStr ''https://cb.example'') JUndefined (JStr []))
   \<and> getAuthorizeURL demo_host (JStr ''https://cb.example'') JUndefined (JStr [])
       = ''https://open.weixin.qq.com/connect/oauth2/authorize?appid=wx1234&redirect_uri=https%3A%2F%2Fcb.example&response_type=code&scope=snsapi_base&state=#wechat_redirect''"
proof -
  have url: "getAuthorizeURL demo_host (JStr ''https://cb.example'') JUndefined (JStr [])
       = ''https://open.weixin.qq.com/connect/oauth2/authorize?appid=wx1234&redirect_uri=https%3A%2F%2Fcb.example&response_type=code&scope=snsapi_base&state=#wechat_redirect''"
    by (simp add: getAuthorizeURL_def querystring_stringify_def js_or_def demo_host_def
        noEscape_def hexTable_def hex_digit_def)
  note defaults = getAuthorizeURL_defaults_by_truthiness
    [of JUndefined demo_host "JStr ''https://cb.example''" "JStr []" "[]"]
  have state: "suffix ''&state=#wechat_redirect''
      (getAuthorizeURL demo_host (JStr ''https://cb.example'') JUndefined (JStr []))"
    by (rule defaults [THEN conjunct1, rule_format]) simp
  have scope: "sublist ''&scope=snsapi_base''
      (getAuthorizeURL demo_host (JStr ''https://cb.example'') JUndefined (JStr []))"
    by (rule defaults [THEN conjunct2, THEN conjunct2, THEN conjunct1, rule_format, THEN conjunct2])
      simp
  from state scope url show ?thesis by (simp only: truthy.simps simp_thms list.simps)
qed

text \<open>
  Counterexample to C10 as it is stated. The claim ends with "an explicit empty scope
  cannot be expressed". The empty object and the number Infinity are truthy, so they are
  not replaced by the default, and they print as the empty string: the URL has
  \<open>scope=\<close> with an empty value. The empty array, truthy as well, leaves the scope field
  out.
\<close>

theorem explicit_empty_scope_counterexample:
  "truthy (JObj []) \<and> truthy JInfinity \<and> truthy (JArr [])
   \<and> getAuthorizeURL demo_host (JStr ''https://cb.example'') (JStr ''s1'') (JObj [])
       = ''https://open.weixin.qq.com/connect/oauth2/authorize?appid=wx1234&redirect_uri=https%3A%2F%2Fcb.example&response_type=code&scope=&state=s1#wechat_redirect''
   \<and> getAuthorizeURL demo_host (JStr ''https://cb.example'') (JStr ''s1'') JInfinity
       = ''https://open.weixin.qq.com/connect/oauth2/authorize?appid=wx1234&redirect_uri=https%3A%2F%2Fcb.example&response_type=code&scope=&state=s1#wechat_redirect''
   \<and> getAuthorizeURL demo_host (JStr ''https://cb.example'') (JStr ''s1'') (JArr [])
       = ''https://open.weixin.qq.com/connect/oauth2/authorize?appid=wx1234&redirect_uri=https%3A%2F%2Fcb.example&response_type=code&state=s1#wechat_redirect''"
  by (simp add: getAuthorizeURL_def querystring_stringify_def js_or_def demo_host_def
      noEscape_def hexTable_def hex_digit_def)

end
